theory Spec2Isabelle
  imports Complex_Main "HOL-Library.Multiset"
begin

section \<open>Rumble Recognition: the session logic of the gastric interoception task\<close>

text \<open>
  The development embeds \<^verbatim>\<open>task_main/rumble_recognition.py\<close> (the session script,
  function \<^verbatim>\<open>run_gastric_stethoscope_self\<close>) and
  \<^verbatim>\<open>task_main/rumble_recognition_functions.py\<close> (instructions, calibration,
  training, discrimination trial, rating sliders, questionnaires).

  Python integers are \<open>int\<close>, list positions and counts are \<open>nat\<close>, pointer
  coordinates and slider values are \<open>real\<close>, strings are \<open>string\<close> with one
  \<open>char\<close> per code point (code points below 256).
\<close>

subsection \<open>Strings\<close>

text \<open>\<^verbatim>\<open>s.startswith(p)\<close>, \<^verbatim>\<open>s.endswith(p)\<close> and the slice \<^verbatim>\<open>s[a : -b]\<close>.\<close>

definition startswith :: "string \<Rightarrow> string \<Rightarrow> bool" where
  "startswith s p = (take (length p) s = p)"

definition endswith :: "string \<Rightarrow> string \<Rightarrow> bool" where
  "endswith s p = (length p \<le> length s \<and> drop (length s - length p) s = p)"

definition slice_to_end_minus :: "string \<Rightarrow> nat \<Rightarrow> nat \<Rightarrow> string" where
  "slice_to_end_minus s a b = drop a (take (length s - b) s)"

text \<open>
  \<^verbatim>\<open>str.isalpha\<close> and \<^verbatim>\<open>str.lower\<close> on one character, for the code points below
  256: the ASCII letters, the three letters 170, 181, 186, and the accented letters
  192..255 without the two operators 215 and 247. The capitals are 65..90 and 192..222
  (without 215); lowering adds 32.
\<close>

definition isalpha :: "char \<Rightarrow> bool" where
  "isalpha c =
     (let n = (of_char c :: nat)
      in (65 \<le> n \<and> n \<le> 90) \<or> (97 \<le> n \<and> n \<le> 122) \<or> n = 170 \<or> n = 181 \<or> n = 186
         \<or> (192 \<le> n \<and> n \<le> 214) \<or> (216 \<le> n \<and> n \<le> 246) \<or> (248 \<le> n \<and> n \<le> 255))"

definition lower :: "char \<Rightarrow> char" where
  "lower c =
     (let n = (of_char c :: nat)
      in if (65 \<le> n \<and> n \<le> 90) \<or> (192 \<le> n \<and> n \<le> 214) \<or> (216 \<le> n \<and> n \<le> 222)
         then char_of (n + 32) else c)"

definition ord :: "char \<Rightarrow> int" where
  "ord c = int (of_char c :: nat)"

text \<open>
  \<^verbatim>\<open>chr(n)\<close>. The result is \<open>None\<close> where the code point has no \<open>char\<close>
  (256 and above, or negative): Python returns a character there that this
  character type cannot hold.
\<close>

definition chr :: "int \<Rightarrow> char option" where
  "chr n = (if 0 \<le> n \<and> n < 256 then Some (char_of (nat n)) else None)"

text \<open>\<^verbatim>\<open>str(n)\<close> for an integer: decimal digits, a minus sign when negative.\<close>

definition digit_char :: "nat \<Rightarrow> char" where
  "digit_char d = char_of (48 + d)"

fun digits :: "nat \<Rightarrow> string" where
  "digits n = (if n < 10 then [digit_char n] else digits (n div 10) @ [digit_char (n mod 10)])"

declare digits.simps [simp del]

definition str_int :: "int \<Rightarrow> string" where
  "str_int n = (if n < 0 then CHR ''-'' # digits (nat (- n)) else digits (nat n))"

subsection \<open>The name of the session log\<close>

text \<open>
  \<^verbatim>\<open>run_gastric_stethoscope_self\<close>, section LOGGING. The save directory is given by
  the list of the file names in it (\<^verbatim>\<open>os.listdir(save_dir)\<close>);
  \<^verbatim>\<open>os.path.exists(base_path + ".tsv")\<close> is membership in that list.
\<close>

definition base_name :: "string \<Rightarrow> string" where
  "base_name participant_id = ''sub-'' @ participant_id @ ''_rumble_recognition''"

text \<open>The body of the loop over \<^verbatim>\<open>existing_files\<close>: the index a file contributes, if any.\<close>

definition suffix_index :: "string \<Rightarrow> string \<Rightarrow> int option" where
  "suffix_index base file =
     (if file = base @ ''.tsv'' then None
      else if startswith file (base @ ''_'') \<and> endswith file ''.tsv''
      then (let suffix = slice_to_end_minus file (length base + 1) 4
            in if length suffix = 1 \<and> list_all isalpha suffix
               then Some (ord (lower (hd suffix)) - ord CHR ''a'') else None)
      else None)"

definition suffix_indices :: "string \<Rightarrow> string list \<Rightarrow> int list" where
  "suffix_indices base listing =
     List.map_filter (suffix_index base) (filter (\<lambda>f. startswith f base) listing)"

definition next_index :: "int list \<Rightarrow> int" where
  "next_index indices = (case indices of [] \<Rightarrow> 0 | i # rest \<Rightarrow> fold max rest i + 1)"

definition choose_csv_file_name :: "string list \<Rightarrow> string \<Rightarrow> string option" where
  "choose_csv_file_name listing participant_id =
     (let base = base_name participant_id
      in if base @ ''.tsv'' \<in> set listing
         then (case chr (ord CHR ''a'' + next_index (suffix_indices base listing)) of
                 None \<Rightarrow> None
               | Some next_suffix \<Rightarrow> Some (base @ ''_'' @ [next_suffix] @ ''.tsv''))
         else Some (base @ ''.tsv''))"

subsection \<open>The dietary condition of a trial\<close>

text \<open>\<^verbatim>\<open>run_gastric_stethoscope_self\<close>, the head of the loop over the trials.\<close>

definition condition :: "int \<Rightarrow> string" where
  "condition t =
     (if t < 9 then ''Fasted''
      else if 9 \<le> t \<and> t < 19 then ''Post_Drink_1''
      else ''Post_Drink_2'')"


subsection \<open>Input, effects and outcomes\<close>

text \<open>
  The script is one sequential flow that polls the pointer and the keyboard in loops.
  A \<open>frame\<close> is what one pass of such a loop reads: the pointer position
  (\<^verbatim>\<open>mouse.getPos()\<close>), the three buttons (\<^verbatim>\<open>mouse.getPressed()\<close>), the keys of
  \<^verbatim>\<open>event.getKeys()\<close>, and the keys a second \<^verbatim>\<open>event.getKeys()\<close> of the same pass
  returns. The input of a run is the list of the frames still to come and the random
  source: \<open>entropy\<close> is the sequence of raw draws, \<open>drawn\<close> counts the draws taken.
\<close>

record frame =
  mouse_x :: real
  mouse_y :: real
  left_button :: bool
  middle_button :: bool
  right_button :: bool
  keys :: "string list"
  late_keys :: "string list"

record input =
  frames :: "frame list"
  entropy :: "nat \<Rightarrow> int"
  drawn :: nat

text \<open>
  A path is the list of its components (\<^verbatim>\<open>os.path.join\<close> appends one). A field is
  a value handed to \<^verbatim>\<open>csv.writer.writerow\<close> or to \<^verbatim>\<open>str\<close>: a string, an integer or a
  float. The text Python prints for a float is not modelled, so a row and a serial
  message keep their fields.
\<close>

type_synonym path = "string list"

datatype field = Str string | Intg int | Flt real

text \<open>
  The effects recorded: what is sent to the serial port, what the audio device plays
  and records, and what is written to the file system. The display, the timed waits, the
  console and the diagnostic log are not recorded.
\<close>

datatype event =
    SerialWrite "field list"
  | MakeDirs path
  | LiveStream int
  | PlayWav path
  | RecStart int
  | AudioWait
  | AudioStop
  | WavWrite path
  | CsvRow path "field list"

text \<open>
  A run ends with a value (\<open>Done\<close>), in \<^verbatim>\<open>core.quit()\<close> (\<open>Quit\<close>), with an
  exception (\<open>Raised\<close>), or it is still polling when the recorded frames end
  (\<open>Pending\<close>): the loops on input have no timeout.
\<close>

datatype error = IndexError | CharRange

datatype 'a outcome = Done 'a | Quit | Pending | Raised error

datatype 'a run = Run (events: "event list") (outcome: "'a outcome") (rest: input)

type_synonym 'a prog = "input \<Rightarrow> 'a run"

definition return :: "'a \<Rightarrow> 'a prog" where
  "return x i = Run [] (Done x) i"

definition emit :: "event \<Rightarrow> unit prog" where
  "emit e i = Run [e] (Done ()) i"

definition raise :: "error \<Rightarrow> 'a prog" where
  "raise e i = Run [] (Raised e) i"

definition bind :: "'a prog \<Rightarrow> ('a \<Rightarrow> 'b prog) \<Rightarrow> 'b prog" where
  "bind p f i =
     (case p i of Run es out i' \<Rightarrow>
        (case out of
           Done x \<Rightarrow> (case f x i' of Run es' out' i'' \<Rightarrow> Run (es @ es') out' i'')
         | Quit \<Rightarrow> Run es Quit i'
         | Pending \<Rightarrow> Run es Pending i'
         | Raised e \<Rightarrow> Run es (Raised e) i'))"

definition seq :: "unit prog \<Rightarrow> 'a prog \<Rightarrow> 'a prog" where
  "seq p q = bind p (\<lambda>_. q)"

fun run_all :: "unit prog list \<Rightarrow> unit prog" where
  "run_all [] = return ()"
| "run_all (p # ps) = seq p (run_all ps)"

definition run_if :: "bool \<Rightarrow> unit prog \<Rightarrow> unit prog" where
  "run_if b p = (if b then p else return ())"

definition lift :: "error + 'a \<Rightarrow> 'a prog" where
  "lift r = (case r of Inl e \<Rightarrow> raise e | Inr x \<Rightarrow> return x)"

text \<open>A loop that only reads frames, run on the frames of the input.\<close>

definition poll :: "(frame list \<Rightarrow> 'a outcome \<times> frame list) \<Rightarrow> 'a prog" where
  "poll loop i = (case loop (frames i) of (out, fs) \<Rightarrow> Run [] out (i\<lparr>frames := fs\<rparr>))"

text \<open>\<^verbatim>\<open>xs[i]\<close>: a negative index counts from the end, an index out of range raises.\<close>

definition index_py :: "'a list \<Rightarrow> int \<Rightarrow> error + 'a" where
  "index_py xs i =
     (if 0 \<le> i \<and> i < int (length xs) then Inr (xs ! nat i)
      else if i < 0 \<and> - int (length xs) \<le> i then Inr (xs ! nat (int (length xs) + i))
      else Inl IndexError)"

text \<open>\<^verbatim>\<open>ser.write(...)\<close> under \<^verbatim>\<open>if is_integrated_external\<close>.\<close>

definition serial :: "bool \<Rightarrow> string \<Rightarrow> unit prog" where
  "serial is_integrated_external spike_log =
     run_if is_integrated_external (emit (SerialWrite [Str spike_log]))"

subsection \<open>The random source\<close>

text \<open>
  The library's contracts: \<^verbatim>\<open>random.random()\<close> is 53 random bits divided by
  \<open>2 ^ 53\<close>, a value in \<open>[0, 1)\<close>, \<^verbatim>\<open>random.uniform(a, b)\<close> is \<^verbatim>\<open>a + (b - a) * random()\<close>, the index drawn below
  \<open>n\<close> is smaller than \<open>n\<close>, and \<^verbatim>\<open>random.shuffle(x)\<close> walks \<open>i\<close> from the last index
  down to 1 and swaps \<open>x[i]\<close> with \<open>x[j]\<close> for a \<open>j\<close> drawn below \<open>i + 1\<close>.
\<close>

definition random_unit :: "real prog" where
  "random_unit i =
     Run [] (Done (real_of_int (entropy i (drawn i) mod 2 ^ 53) / 2 ^ 53))
       (i\<lparr>drawn := Suc (drawn i)\<rparr>)"

definition uniform :: "real \<Rightarrow> real \<Rightarrow> real prog" where
  "uniform a b = bind random_unit (\<lambda>u. return (a + (b - a) * u))"

definition randbelow :: "nat \<Rightarrow> nat prog" where
  "randbelow n i =
     Run [] (Done (nat (entropy i (drawn i) mod int n))) (i\<lparr>drawn := Suc (drawn i)\<rparr>)"

definition swap :: "nat \<Rightarrow> nat \<Rightarrow> 'a list \<Rightarrow> 'a list" where
  "swap i j x = x[i := x ! j, j := x ! i]"

fun shuffle_from :: "nat \<Rightarrow> 'a list \<Rightarrow> 'a list prog" where
  "shuffle_from 0 x = return x"
| "shuffle_from (Suc k) x = bind (randbelow (Suc k + 1)) (\<lambda>j. shuffle_from k (swap (Suc k) j x))"

definition shuffle :: "'a list \<Rightarrow> 'a list prog" where
  "shuffle x = shuffle_from (length x - 1) x"

subsection \<open>The stimulus order\<close>

text \<open>
  \<^verbatim>\<open>run_gastric_stethoscope_self\<close>: the loop \<^verbatim>\<open>for _ in range(trials // 3)\<close> that
  extends \<^verbatim>\<open>stim_order\<close> by a shuffled set of \<^verbatim>\<open>half_trials_per_set\<close> ones and as many
  twos. \<open>stim_sets n\<close> is \<open>n\<close> passes of the loop.
\<close>

fun stim_sets :: "nat \<Rightarrow> nat \<Rightarrow> int list \<Rightarrow> int list prog" where
  "stim_sets half_trials_per_set 0 stim_order = return stim_order"
| "stim_sets half_trials_per_set (Suc n) stim_order =
     bind (shuffle (replicate half_trials_per_set 1 @ replicate half_trials_per_set 2))
       (\<lambda>set_of_10. stim_sets half_trials_per_set n (stim_order @ set_of_10))"

definition trials :: int where
  "trials = 30"

definition half_trials_per_set :: nat where
  "half_trials_per_set = 5"

definition make_stim_order :: "int list prog" where
  "make_stim_order = stim_sets half_trials_per_set (nat (trials div 3)) []"

subsection \<open>Keys, buttons and polling loops\<close>

text \<open>
  \<^verbatim>\<open>shape.contains(mouse.getPos())\<close> for a rectangle given by its centre and its size;
  the edge counts as inside. \<^verbatim>\<open>mouse.isPressedIn(shape)\<close> asks for any of the three
  buttons.
\<close>

definition contains :: "real \<times> real \<Rightarrow> real \<times> real \<Rightarrow> frame \<Rightarrow> bool" where
  "contains pos extent f =
     (\<bar>mouse_x f - fst pos\<bar> \<le> fst extent / 2 \<and> \<bar>mouse_y f - snd pos\<bar> \<le> snd extent / 2)"

definition is_pressed_in :: "real \<times> real \<Rightarrow> real \<times> real \<Rightarrow> frame \<Rightarrow> bool" where
  "is_pressed_in pos extent f =
     ((left_button f \<or> middle_button f \<or> right_button f) \<and> contains pos extent f)"

text \<open>\<^verbatim>\<open>play_sound_on_click\<close>: the sound is played in every pass that finds the button pressed.\<close>

fun play_sound_loop ::
  "real \<times> real \<Rightarrow> real \<times> real \<Rightarrow> path \<Rightarrow> frame list \<Rightarrow> event list \<times> unit outcome \<times> frame list"
where
  "play_sound_loop button_pos button_size sound_file [] = ([], Pending, [])"
| "play_sound_loop button_pos button_size sound_file (f # fs) =
     (let played = (if is_pressed_in button_pos button_size f then [PlayWav sound_file] else [])
      in if ''return'' \<in> set (keys f) then (played, Done (), fs)
         else if ''escape'' \<in> set (keys f) then (played, Quit, fs)
         else (case play_sound_loop button_pos button_size sound_file fs of
                 (es, out, fs') \<Rightarrow> (played @ es, out, fs')))"

definition play_sound_on_click :: "path \<Rightarrow> real \<times> real \<Rightarrow> real \<times> real \<Rightarrow> unit prog" where
  "play_sound_on_click sound_file button_pos button_size i =
     (case play_sound_loop button_pos button_size sound_file (frames i) of
        (es, out, fs) \<Rightarrow> Run es out (i\<lparr>frames := fs\<rparr>))"

text \<open>\<^verbatim>\<open>wait_for_key_press\<close>: the test for RETURN comes before the test for ESCAPE.\<close>

fun wait_loop :: "frame list \<Rightarrow> unit outcome \<times> frame list" where
  "wait_loop [] = (Pending, [])"
| "wait_loop (f # fs) =
     (if ''return'' \<in> set (keys f) then (Done (), fs)
      else if ''escape'' \<in> set (keys f) then (Quit, fs)
      else wait_loop fs)"

definition wait_for_key_press :: "unit prog" where
  "wait_for_key_press = poll wait_loop"

text \<open>\<^verbatim>\<open>show_instructions\<close>: one page, left for the previous page, RETURN for the next.\<close>

fun show_instructions :: "string \<Rightarrow> frame list \<Rightarrow> string outcome \<times> frame list" where
  "show_instructions instruction_text [] = (Pending, [])"
| "show_instructions instruction_text (f # fs) =
     (if ''escape'' \<in> set (keys f) then (Quit, fs)
      else if ''left'' \<in> set (keys f) then (Done ''previous'', fs)
      else if ''return'' \<in> set (keys f) then (Done ''next'', fs)
      else show_instructions instruction_text fs)"

text \<open>
  \<^verbatim>\<open>show_instructions_list\<close>: the loop \<^verbatim>\<open>while index < len(instructions_list)\<close>. Every
  page shown reads at least one frame, so the loop ends on a finite list of frames.
\<close>

function show_instructions_from ::
  "string list \<Rightarrow> nat \<Rightarrow> frame list \<Rightarrow> unit outcome \<times> frame list"
where
  "show_instructions_from instructions_list index fs =
     (if index < length instructions_list
      then (case show_instructions (instructions_list ! index) fs of
              (Done result, fs') \<Rightarrow>
                show_instructions_from instructions_list
                  (if result = ''next'' then index + 1
                   else if result = ''previous'' \<and> index > 0 then index - 1
                   else index) fs'
            | (Quit, fs') \<Rightarrow> (Quit, fs')
            | (Pending, fs') \<Rightarrow> (Pending, fs')
            | (Raised e, fs') \<Rightarrow> (Raised e, fs'))
      else (Done (), fs))"
  by pat_completeness auto
termination
proof (relation "measure (\<lambda>(instructions_list, index, fs). length fs)")
  show "wf (measure (\<lambda>(instructions_list, index, fs). length fs))"
    by simp
next
  fix instructions_list :: "string list" and index :: nat and fs fs' :: "frame list"
    and out :: "string outcome" and result :: string
  assume "index < length instructions_list"
    and shown: "(out, fs') = show_instructions (instructions_list ! index) fs"
    and finished: "out = Done result"
  have shorter: "length (snd (show_instructions page gs)) < length gs"
    if "fst (show_instructions page gs) = Done r" for page r gs
    using that by (induction gs) (auto split: if_splits)
  have "fst (show_instructions (instructions_list ! index) fs) = Done result"
    and "snd (show_instructions (instructions_list ! index) fs) = fs'"
    using shown [symmetric] finished by simp_all
  with shorter [of "instructions_list ! index" fs result] have "length fs' < length fs"
    by simp
  then show "((instructions_list,
               if result = ''next'' then index + 1
               else if result = ''previous'' \<and> 0 < index then index - 1 else index, fs'),
              instructions_list, index, fs)
             \<in> measure (\<lambda>(instructions_list, index, fs). length fs)"
    by simp
qed

declare show_instructions_from.simps [simp del]

definition show_instructions_list :: "string list \<Rightarrow> unit prog" where
  "show_instructions_list instructions_list = poll (show_instructions_from instructions_list 0)"

text \<open>
  The two-button choice of \<^verbatim>\<open>run_training\<close> and \<^verbatim>\<open>run_discrimination_trial\<close>: the
  buttons, the hit test of every button, and the first button hit.
\<close>

definition buttons :: "string list" where
  "buttons = [''Sound 1'', ''Sound 2'']"

definition button_positions :: "(real \<times> real) list" where
  "button_positions = [(- 100, 0), (100, 0)]"

definition buttons_clicked :: "frame \<Rightarrow> bool list" where
  "buttons_clicked f = map (\<lambda>pos. contains pos (150, 50) f) button_positions"

fun first_clicked :: "nat \<Rightarrow> bool list \<Rightarrow> nat option" where
  "first_clicked i [] = None"
| "first_clicked i (clicked # others) = (if clicked then Some i else first_clicked (Suc i) others)"

definition selected_button_index :: "frame \<Rightarrow> nat option" where
  "selected_button_index f = first_clicked 0 (buttons_clicked f)"

text \<open>
  The response loop of \<^verbatim>\<open>run_training\<close>: ESCAPE is tested first, then the left button.
\<close>

fun training_response :: "frame list \<Rightarrow> nat outcome \<times> frame list" where
  "training_response [] = (Pending, [])"
| "training_response (f # fs) =
     (if ''escape'' \<in> set (keys f) then (Quit, fs)
      else (case (if left_button f then selected_button_index f else None) of
              Some response \<Rightarrow> (Done response, fs)
            | None \<Rightarrow> training_response fs))"

text \<open>
  The response loop of \<^verbatim>\<open>run_discrimination_trial\<close>: the left button is tested first,
  then ESCAPE, which quits also in the pass that took a response.
\<close>

fun trial_response :: "frame list \<Rightarrow> nat outcome \<times> frame list" where
  "trial_response [] = (Pending, [])"
| "trial_response (f # fs) =
     (case (if left_button f then selected_button_index f else None) of response \<Rightarrow>
        if ''escape'' \<in> set (keys f) then (Quit, fs)
        else (case response of
                Some r \<Rightarrow> (Done r, fs)
              | None \<Rightarrow> trial_response fs))"

text \<open>\<^verbatim>\<open>response_code = [1, 2][response]\<close>.\<close>

definition response_code_of :: "nat \<Rightarrow> error + int" where
  "response_code_of response = index_py [1, 2] (int response)"

subsection \<open>The rating sliders\<close>

text \<open>
  \<^verbatim>\<open>get_confidence_mouse\<close>. The slider keeps the marker position it is given;
  \<open>track\<close> is the update of one pass: the pointer's \<open>x\<close> mapped to the scale, taken
  only when it lies between 0 and 100.
\<close>

definition slider_value :: "frame \<Rightarrow> real" where
  "slider_value f = (mouse_x f + 300) / 6"

definition track :: "real \<Rightarrow> frame \<Rightarrow> real" where
  "track markerPos f =
     (if 0 \<le> slider_value f \<and> slider_value f \<le> 100 then slider_value f else markerPos)"

fun confidence_loop :: "real \<Rightarrow> frame list \<Rightarrow> real outcome \<times> frame list" where
  "confidence_loop markerPos [] = (Pending, [])"
| "confidence_loop markerPos (f # fs) =
     (if ''escape'' \<in> set (keys f) then (Quit, fs)
      else if left_button f then (Done markerPos, fs)
      else confidence_loop (track markerPos f) fs)"

definition get_confidence_mouse :: "real prog" where
  "get_confidence_mouse =
     bind (uniform 20 80) (\<lambda>initial_position. poll (confidence_loop initial_position))"

text \<open>
  \<^verbatim>\<open>get_post_task_qs\<close>: a question is its label, its text and its two scale labels.
  With the mouse the loop is that of the confidence slider; with the keyboard the
  second \<^verbatim>\<open>event.getKeys()\<close> of the pass decides.
\<close>

type_synonym question = "string \<times> string \<times> string list"

fun question_loop :: "bool \<Rightarrow> string list \<Rightarrow> real \<Rightarrow> frame list \<Rightarrow> field outcome \<times> frame list" where
  "question_loop use_mouse scale markerPos [] = (Pending, [])"
| "question_loop use_mouse scale markerPos (f # fs) =
     (if ''escape'' \<in> set (keys f) then (Quit, fs)
      else if use_mouse
      then (if left_button f then (Done (Flt markerPos), fs)
            else question_loop use_mouse scale (track markerPos f) fs)
      else (if ''left'' \<in> set (late_keys f) then (Done (Intg 0), fs)
            else if ''right'' \<in> set (late_keys f) then (Done (Intg (int (length scale) - 1)), fs)
            else question_loop use_mouse scale markerPos fs))"

fun get_post_task_qs :: "path \<Rightarrow> question list \<Rightarrow> bool \<Rightarrow> unit prog" where
  "get_post_task_qs csv_file_name [] use_mouse = return ()"
| "get_post_task_qs csv_file_name ((label, question, scale) # questions) use_mouse =
     bind (uniform 20 80) (\<lambda>initial_position.
     bind (poll (question_loop use_mouse scale initial_position)) (\<lambda>response.
     seq (emit (CsvRow csv_file_name [Str ''Question'', Str label, response, Str ''NA'', Str ''NA'']))
         (get_post_task_qs csv_file_name questions use_mouse)))"

subsection \<open>Calibration, training and the discrimination trial\<close>

text \<open>
  The countdown loops of the calibration run while the clock is below the chunk
  duration and wait half a second in every pass; a pass reads the keys once. With the
  waits as the only time that passes, a chunk of \<open>d\<close> seconds is \<open>2 * d\<close> passes.
\<close>

fun countdown :: "nat \<Rightarrow> frame list \<Rightarrow> unit outcome \<times> frame list" where
  "countdown 0 fs = (Done (), fs)"
| "countdown (Suc n) [] = (Pending, [])"
| "countdown (Suc n) (f # fs) =
     (if ''escape'' \<in> set (keys f) then (Quit, fs) else countdown n fs)"

definition instructions_list :: "string list" where
  "instructions_list = [''instruction_1'', ''instruction_2'', ''instruction_3'', ''instruction_4'']"

definition run_instructions_calibration :: "bool \<Rightarrow> int \<Rightarrow> int \<Rightarrow> path \<Rightarrow> unit prog" where
  "run_instructions_calibration is_integrated_external fs duration gastric_sound_dir =
     (let chunk_duration = duration in
      run_all
        [emit (MakeDirs gastric_sound_dir),
         serial is_integrated_external ''RECORDING_0;'',
         serial is_integrated_external ''INSTRUCTIONS;'',
         show_instructions_list instructions_list,
         emit (RecStart (chunk_duration * fs)),
         poll (countdown (nat (2 * chunk_duration))),
         emit AudioWait,
         emit (WavWrite (gastric_sound_dir @ [''gastric_rec_training.wav''])),
         emit (RecStart (chunk_duration * fs)),
         poll (countdown (nat (2 * chunk_duration))),
         emit AudioWait,
         emit (WavWrite (gastric_sound_dir @ [''gastric_rec_0.wav'']))])"

text \<open>
  The two stimuli. The live sound is the loopback stream, open for \<open>duration\<close>
  seconds; the pre-recorded sound is the file read and played to its end.
\<close>

definition play_live :: "bool \<Rightarrow> int \<Rightarrow> unit prog" where
  "play_live is_integrated_external duration =
     run_all
       [serial is_integrated_external ''LIVE START;'',
        emit (LiveStream (duration * 1000)),
        serial is_integrated_external ''LIVE END;'']"

definition serial_responses :: "bool \<Rightarrow> string \<Rightarrow> int \<Rightarrow> real \<Rightarrow> unit prog" where
  "serial_responses is_integrated_external button response_code confidence =
     run_if is_integrated_external
       (emit (SerialWrite [Str ''RESPONSES: '', Str button, Str ''_'', Intg response_code,
                           Str ''_'', Flt confidence, Str '';'']))"

definition run_training :: "bool \<Rightarrow> int \<Rightarrow> path \<Rightarrow> (string \<times> int \<times> real) prog" where
  "run_training is_integrated_external duration sound_file_play =
     seq (run_all
            [play_live is_integrated_external duration,
             emit (PlayWav sound_file_play),
             serial is_integrated_external ''REC END;''])
     (bind (poll training_response) (\<lambda>response.
      bind (lift (response_code_of response)) (\<lambda>response_code.
      bind get_confidence_mouse (\<lambda>confidence.
      bind (lift (index_py buttons (int response))) (\<lambda>button.
      seq (serial_responses is_integrated_external button response_code confidence)
          (return (button, response_code, confidence)))))))"

definition run_discrimination_trial ::
  "bool \<Rightarrow> int \<Rightarrow> int \<Rightarrow> int \<Rightarrow> int \<Rightarrow> path \<Rightarrow> path \<Rightarrow> (string \<times> int \<times> real) prog"
where
  "run_discrimination_trial is_integrated_external fs duration trial_num participant_loc
       gastric_sound_dir sound_file_play =
     seq (if participant_loc = 1
          then run_all
                 [play_live is_integrated_external duration,
                  serial is_integrated_external ''REC START;'',
                  emit (PlayWav sound_file_play),
                  serial is_integrated_external ''REC END;'']
          else run_all
                 [serial is_integrated_external ''REC START;'',
                  emit (PlayWav sound_file_play),
                  serial is_integrated_external ''REC END;'',
                  play_live is_integrated_external duration])
     (let sound_file_rec = gastric_sound_dir @ [''gastric_rec_'' @ str_int (trial_num + 1) @ ''.wav'']
      in seq (run_all
                [serial is_integrated_external (''RECORDING_'' @ str_int (trial_num + 1) @ '';''),
                 serial is_integrated_external ''QUESTION;'',
                 emit (RecStart (duration * fs))])
         (bind (poll trial_response) (\<lambda>response.
          bind (lift (response_code_of response)) (\<lambda>response_code.
          bind get_confidence_mouse (\<lambda>confidence.
          seq (run_all [emit AudioWait, emit AudioStop, emit (WavWrite sound_file_rec)])
          (bind (lift (index_py buttons (int response))) (\<lambda>button.
          seq (serial_responses is_integrated_external button response_code confidence)
              (return (button, response_code, confidence)))))))))"

subsection \<open>The session\<close>

text \<open>The questionnaires: the four state items of a checkpoint, and the closing items.\<close>

definition state_questions :: "string \<Rightarrow> question list" where
  "state_questions k =
     [(''Hunger'' @ k, ''I am'', [''Not at all hungry'', ''Very hungry'']),
      (''Thirst'' @ k @ '' '', ''I feel'', [''Not at all thirsty'', ''Very thirsty'']),
      (''Nausea'' @ k, ''I feel'', [''Not at all nauseous'', ''Very nauseous'']),
      (''Disgust'' @ k @ '' '', ''I feel'', [''Not at all disgusted'', ''Very disgusted''])]"

definition closing_questions :: "question list" where
  "closing_questions =
     state_questions ''4'' @
     [(''TaskGeneral'', ''I find the task'', [''Very unpleasant'', ''Very pleasant'']),
      (''Difficulty'', ''I find the task'', [''Very easy'', ''Very hard'']),
      (''Gut_Norm '', ''Usually my stomach'',
         [''Is still/'' @ [CHR 0x0A] @ ''Quiet'', ''Moves a lot/'' @ [CHR 0x0A] @ ''Is noisy'']),
      (''Drink1_Like '', ''Drink 1 was'', [''Very unpleasant'', ''Very pleasant'']),
      (''Drink2_Like '', ''Drink 2 was'', [''Very unpleasant'', ''Very pleasant''])]"

definition chimes :: path where
  "chimes = [''../task_helpers/chimes.wav'']"

definition sound_test :: "unit prog" where
  "sound_test = play_sound_on_click chimes (0, 0) (200, 100)"

text \<open>
  The configuration: the three entries read from \<^verbatim>\<open>config.yaml\<close> when the task runs
  in the toolbox, the desktop of the home directory and participant 999 otherwise.
\<close>

record config_data =
  Participant_ID :: string
  Physio_Directory :: path
  Behavioural_Directory :: path

definition load_config :: "bool \<Rightarrow> config_data \<Rightarrow> path \<Rightarrow> string \<times> path \<times> path" where
  "load_config is_integrated_toolbox config_data home =
     (if is_integrated_toolbox
      then (Participant_ID config_data, Physio_Directory config_data,
            Behavioural_Directory config_data)
      else (''999'', home @ [''Desktop''], home @ [''Desktop'']))"

text \<open>The two header rows, written when the log is opened.\<close>

definition write_header :: "path \<Rightarrow> string \<Rightarrow> unit prog" where
  "write_header csv_file_name participant_id =
     run_all
       [emit (CsvRow csv_file_name [Str ''Participant ID'', Str participant_id]),
        emit (CsvRow csv_file_name
                [Str ''Trial'', Str ''Participant_Sound_Loc'', Str ''Button'',
                 Str ''Response_code'', Str ''Confidence''])]"

text \<open>The training trial and its row.\<close>

definition training_trial :: "bool \<Rightarrow> int \<Rightarrow> path \<Rightarrow> path \<Rightarrow> unit prog" where
  "training_trial is_integrated_external duration gastric_sound_dir csv_file_name =
     (let sound_file_play = gastric_sound_dir @ [''gastric_rec_training.wav'']
      in bind (run_training is_integrated_external duration sound_file_play)
           (\<lambda>(button, response_code, confidence).
              emit (CsvRow csv_file_name
                      [Str ''Training'', Str ''1'', Str button, Intg response_code,
                       Flt confidence])))"

text \<open>
  One pass of the loop \<^verbatim>\<open>for t in range(0, trials)\<close>; the value says whether the pass
  ended in \<^verbatim>\<open>break\<close>.
\<close>

definition trial_pass ::
  "bool \<Rightarrow> int \<Rightarrow> int \<Rightarrow> path \<Rightarrow> path \<Rightarrow> int list \<Rightarrow> int \<Rightarrow> bool prog"
where
  "trial_pass is_integrated_external fs duration gastric_sound_dir csv_file_name stim_order t =
     seq (serial is_integrated_external (''TRIAL_'' @ str_int t @ ''-COND_'' @ condition t @ '';''))
     (let sound_file_play = gastric_sound_dir @ [''gastric_rec_'' @ str_int t @ ''.wav'']
      in bind (lift (index_py stim_order t)) (\<lambda>participant_loc.
         bind (run_discrimination_trial is_integrated_external fs duration t participant_loc
                 gastric_sound_dir sound_file_play)
           (\<lambda>(button, response_code, confidence).
         seq (run_all
                [emit (CsvRow csv_file_name
                         [Intg t, Intg participant_loc, Str button, Intg response_code,
                          Flt confidence]),
                 run_if (t = 9)
                   (seq (get_post_task_qs csv_file_name (state_questions ''2'') True)
                        wait_for_key_press),
                 run_if (t = 19)
                   (seq (get_post_task_qs csv_file_name (state_questions ''3'') True)
                        wait_for_key_press)])
             (if t = 29
              then seq (get_post_task_qs csv_file_name closing_questions True) (return True)
              else return False))))"

fun trial_passes ::
  "bool \<Rightarrow> int \<Rightarrow> int \<Rightarrow> path \<Rightarrow> path \<Rightarrow> int list \<Rightarrow> int list \<Rightarrow> unit prog"
where
  "trial_passes is_integrated_external fs duration gastric_sound_dir csv_file_name stim_order [] =
     return ()"
| "trial_passes is_integrated_external fs duration gastric_sound_dir csv_file_name stim_order
       (t # ts) =
     bind (trial_pass is_integrated_external fs duration gastric_sound_dir csv_file_name
             stim_order t)
       (\<lambda>break.
          if break then return ()
          else trial_passes is_integrated_external fs duration gastric_sound_dir csv_file_name
                 stim_order ts)"

definition run_gastric_stethoscope_self ::
  "bool \<Rightarrow> bool \<Rightarrow> config_data \<Rightarrow> path \<Rightarrow> string list \<Rightarrow> unit prog"
where
  "run_gastric_stethoscope_self is_integrated_external is_integrated_toolbox config_data home
       listing =
     (case load_config is_integrated_toolbox config_data home of
        (participant_id, sound_dir, save_dir) \<Rightarrow>
     seq (serial is_integrated_external ''START TASK;'')
     (case choose_csv_file_name listing participant_id of
        None \<Rightarrow> raise CharRange
      | Some name \<Rightarrow>
     (let csv_file_name = save_dir @ [name];
          fs = 48000;
          duration = 15;
          gastric_sound_dir = sound_dir @ [''gastric_sounds'']
      in run_all
           [write_header csv_file_name participant_id,
            emit (MakeDirs gastric_sound_dir),
            sound_test,
            run_instructions_calibration is_integrated_external fs duration gastric_sound_dir,
            wait_for_key_press,
            sound_test,
            wait_for_key_press,
            training_trial is_integrated_external duration gastric_sound_dir csv_file_name,
            wait_for_key_press,
            get_post_task_qs csv_file_name (state_questions ''1'') True,
            bind make_stim_order (\<lambda>stim_order.
              trial_passes is_integrated_external fs duration gastric_sound_dir csv_file_name
                stim_order [0..trials - 1]),
            serial is_integrated_external ''END TASK;''])))"

subsection \<open>Notions used in the statements\<close>

text \<open>
  A block of the stimulus order is balanced when it is a rearrangement of
  \<open>h\<close> ones and \<open>h\<close> twos.
\<close>

definition balanced :: "nat \<Rightarrow> int list \<Rightarrow> bool" where
  "balanced h b = (mset b = mset (replicate h 1 @ replicate h 2))"

text \<open>The two sounds of a trial, in the order the audio device presents them.\<close>


datatype sound = Live | Prerecorded path

fun presented_by :: "event \<Rightarrow> sound list" where
  "presented_by (LiveStream d) = [Live]"
| "presented_by (PlayWav p) = [Prerecorded p]"
| "presented_by e = []"

definition presented :: "event list \<Rightarrow> sound list" where
  "presented es = concat (map presented_by es)"

text \<open>
  Sample inputs: a frame with the pointer on the sound-test button and on the first
  choice button, the left button down and RETURN pressed; a frame that only moves the
  pointer; and the input of \<open>n\<close> clicking frames whose random draws are all 0.
\<close>


definition click :: frame where
  "click = \<lparr>mouse_x = - 60, mouse_y = 0, left_button = True, middle_button = False,
            right_button = False, keys = [''return''], late_keys = []\<rparr>"

definition point_at :: "real \<Rightarrow> frame" where
  "point_at x = \<lparr>mouse_x = x, mouse_y = 0, left_button = False, middle_button = False,
                right_button = False, keys = [], late_keys = []\<rparr>"

definition clicks :: "nat \<Rightarrow> input" where
  "clicks n = \<lparr>frames = replicate n click, entropy = (\<lambda>k. 0), drawn = 0\<rparr>"

text \<open>An input that moves the pointer to \<open>x = 0\<close>, then to \<open>x = 600\<close>, then clicks.\<close>

definition slide_then_click :: input where
  "slide_then_click =
     \<lparr>frames = [point_at 0, point_at 600, click], entropy = (\<lambda>k. 0), drawn = 0\<rparr>"

section \<open>Properties\<close>

subsection \<open>Runs of the basic programs\<close>


lemma return_run [simp]:
  "events (return x i) = []" "outcome (return x i) = Done x" "rest (return x i) = i"
  by (simp_all add: return_def)

lemma emit_run [simp]:
  "events (emit e i) = [e]" "outcome (emit e i) = Done ()" "rest (emit e i) = i"
  by (simp_all add: emit_def)

lemma raise_run [simp]:
  "events (raise e i) = []" "outcome (raise e i) = Raised e" "rest (raise e i) = i"
  by (simp_all add: raise_def)

lemma events_bind:
  "events (bind p f i) =
     events (p i) @ (case outcome (p i) of Done x \<Rightarrow> events (f x (rest (p i))) | _ \<Rightarrow> [])"
  by (simp add: bind_def split: run.splits outcome.splits)

lemma outcome_bind:
  "outcome (bind p f i) =
     (case outcome (p i) of Done x \<Rightarrow> outcome (f x (rest (p i))) | Quit \<Rightarrow> Quit
      | Pending \<Rightarrow> Pending | Raised e \<Rightarrow> Raised e)"
  by (simp add: bind_def split: run.splits outcome.splits)

lemma rest_bind:
  "rest (bind p f i) =
     (case outcome (p i) of Done x \<Rightarrow> rest (f x (rest (p i))) | _ \<Rightarrow> rest (p i))"
  by (simp add: bind_def split: run.splits outcome.splits)
lemma presented_simps [simp]:
  "presented [] = []"
  "presented (e # es) = presented_by e @ presented es"
  "presented (es @ es') = presented es @ presented es'"
  by (simp_all add: presented_def)

lemma events_seq:
  "events (seq p q i) =
     events (p i) @ (case outcome (p i) of Done x \<Rightarrow> events (q (rest (p i))) | _ \<Rightarrow> [])"
  by (simp add: seq_def events_bind)

lemma outcome_seq:
  "outcome (seq p q i) =
     (case outcome (p i) of Done x \<Rightarrow> outcome (q (rest (p i))) | Quit \<Rightarrow> Quit
      | Pending \<Rightarrow> Pending | Raised e \<Rightarrow> Raised e)"
  by (simp add: seq_def outcome_bind)

lemma rest_seq:
  "rest (seq p q i) =
     (case outcome (p i) of Done x \<Rightarrow> rest (q (rest (p i))) | _ \<Rightarrow> rest (p i))"
  by (simp add: seq_def rest_bind)

lemma serial_run [simp]:
  "events (serial ext s i) = (if ext then [SerialWrite [Str s]] else [])"
  "outcome (serial ext s i) = Done ()"
  "rest (serial ext s i) = i"
  by (simp_all add: serial_def run_if_def)

lemma serial_responses_run [simp]:
  "events (serial_responses ext b c conf i) =
     (if ext then [SerialWrite [Str ''RESPONSES: '', Str b, Str ''_'', Intg c, Str ''_'',
                                Flt conf, Str '';'']] else [])"
  "outcome (serial_responses ext b c conf i) = Done ()"
  "rest (serial_responses ext b c conf i) = i"
  by (simp_all add: serial_responses_def run_if_def)

lemma poll_run [simp]:
  "events (poll loop i) = []"
  "outcome (poll loop i) = fst (loop (frames i))"
  "rest (poll loop i) = i\<lparr>frames := snd (loop (frames i))\<rparr>"
  by (simp_all add: poll_def split: prod.splits)

lemma lift_run [simp]:
  "events (lift r i) = []"
  "outcome (lift r i) = (case r of Inl e \<Rightarrow> Raised e | Inr x \<Rightarrow> Done x)"
  "rest (lift r i) = i"
  by (simp_all add: lift_def split: sum.splits)

lemma play_live_run [simp]:
  "events (play_live ext duration i) =
     (if ext then [SerialWrite [Str ''LIVE START;''], LiveStream (duration * 1000),
                   SerialWrite [Str ''LIVE END;'']]
      else [LiveStream (duration * 1000)])"
  "outcome (play_live ext duration i) = Done ()"
  "rest (play_live ext duration i) = i"
  by (simp_all add: play_live_def events_seq outcome_seq rest_seq)

lemma random_unit_run [simp]:
  "events (random_unit i) = []"
  "outcome (random_unit i) = Done (real_of_int (entropy i (drawn i) mod 2 ^ 53) / 2 ^ 53)"
  "rest (random_unit i) = i\<lparr>drawn := Suc (drawn i)\<rparr>"
  by (simp_all add: random_unit_def)

lemma uniform_run [simp]:
  "events (uniform a b i) = []"
  "outcome (uniform a b i) =
     Done (a + (b - a) * (real_of_int (entropy i (drawn i) mod 2 ^ 53) / 2 ^ 53))"
  "rest (uniform a b i) = i\<lparr>drawn := Suc (drawn i)\<rparr>"
  by (simp_all add: uniform_def events_bind outcome_bind rest_bind)

lemma get_confidence_mouse_events [simp]: "events (get_confidence_mouse i) = []"
  by (simp add: get_confidence_mouse_def events_bind)

lemmas run_simps = events_bind outcome_bind rest_bind events_seq outcome_seq rest_seq

text \<open>What the procedures do on a clicking frame.\<close>

lemma selected_click: "selected_button_index click = Some 0"
  by (simp add: selected_button_index_def buttons_clicked_def button_positions_def
        contains_def click_def)

lemma trial_response_click: "trial_response (click # fs) = (Done 0, fs)"
  using selected_click by (simp add: click_def)

lemma training_response_click: "training_response (click # fs) = (Done 0, fs)"
  using selected_click by (simp add: click_def)

lemma confidence_loop_click: "confidence_loop m (click # fs) = (Done m, fs)"
  by (simp add: click_def)

lemma index_buttons_0: "index_py buttons 0 = Inr ''Sound 1''"
  by (simp add: index_py_def buttons_def)

lemma get_confidence_mouse_clicks:
  "frames i = click # fs \<Longrightarrow>
   outcome (get_confidence_mouse i)
     = Done (20 + 60 * (real_of_int (entropy i (drawn i) mod 2 ^ 53) / 2 ^ 53))
   \<and> rest (get_confidence_mouse i) = i\<lparr>frames := fs, drawn := Suc (drawn i)\<rparr>"
  by (simp add: get_confidence_mouse_def run_simps confidence_loop_click
        del: confidence_loop.simps)

subsection \<open>The name of the session log\<close>


lemma startswith_append: "startswith (p @ s) p"
  by (simp add: startswith_def)

lemma endswith_append: "endswith (s @ p) p"
  by (simp add: endswith_def)

lemma slice_suffixed:
  "slice_to_end_minus (base @ ''_'' @ [c] @ ''.tsv'') (length base + 1) 4 = [c]"
  by (simp add: slice_to_end_minus_def)

lemma isalpha_lower_ge: "isalpha c \<Longrightarrow> ord CHR ''a'' \<le> ord (lower c)"
  unfolding isalpha_def lower_def ord_def Let_def
  by (auto simp: of_char_of)

lemma suffix_index_nonneg: "suffix_index base file = Some i \<Longrightarrow> 0 \<le> i"
proof -
  assume a: "suffix_index base file = Some i"
  define suffix where "suffix = slice_to_end_minus file (length base + 1) 4"
  from a have l: "length suffix = 1" and al: "list_all isalpha suffix"
    and i: "i = ord (lower (hd suffix)) - ord CHR ''a''"
    unfolding suffix_index_def suffix_def Let_def by (auto split: if_splits)
  from l obtain c where c: "suffix = [c]" by (cases suffix) auto
  with al have "isalpha c" by simp
  from isalpha_lower_ge [OF this] i c show ?thesis by simp
qed

lemma lower_lowercase:
  "97 \<le> (of_char c :: nat) \<Longrightarrow> (of_char c :: nat) \<le> 122 \<Longrightarrow> lower c = c"
  by (simp add: lower_def Let_def)

lemma isalpha_lowercase:
  "97 \<le> (of_char c :: nat) \<Longrightarrow> (of_char c :: nat) \<le> 122 \<Longrightarrow> isalpha c"
  by (simp add: isalpha_def Let_def)

lemma suffix_index_suffixed:
  assumes "97 \<le> (of_char c :: nat)" "(of_char c :: nat) \<le> 122"
  shows "suffix_index base (base @ ''_'' @ [c] @ ''.tsv'') = Some (ord c - ord CHR ''a'')"
proof -
  have s: "startswith (base @ ''_'' @ [c] @ ''.tsv'') (base @ ''_'')"
    using startswith_append [of "base @ ''_''" "[c] @ ''.tsv''"] by simp
  have e: "endswith (base @ ''_'' @ [c] @ ''.tsv'') ''.tsv''"
    using endswith_append [of "base @ ''_'' @ [c]" "''.tsv''"] by simp
  show ?thesis
    unfolding suffix_index_def
    using s e slice_suffixed [of base c] lower_lowercase [OF assms] isalpha_lowercase [OF assms]
    by simp
qed

lemma next_index_Max:
  "next_index ixs = (if ixs = [] then 0 else Max (set ixs) + 1)"
  by (cases "ixs") (simp_all add: next_index_def Max.set_eq_fold [symmetric])

lemma next_index_bounds:
  assumes "\<forall>i\<in>set ixs. 0 \<le> i \<and> i < 25"
  shows "0 \<le> next_index ixs \<and> next_index ixs \<le> 25 \<and> next_index ixs \<notin> set ixs"
proof (cases "ixs = []")
  case True
  then show ?thesis by (simp add: next_index_def)
next
  case False
  then have m: "Max (set ixs) \<in> set ixs" by (intro Max_in) simp_all
  have "\<forall>i\<in>set ixs. i \<le> Max (set ixs)" by simp
  then have "Max (set ixs) + 1 \<notin> set ixs" by fastforce
  with m assms False show ?thesis by (auto simp: next_index_Max)
qed

lemma set_suffix_indices:
  "set (suffix_indices base listing) =
     {i. \<exists>f\<in>set listing. startswith f base \<and> suffix_index base f = Some i}"
  by (force simp: suffix_indices_def List.map_filter_def image_iff)

lemma chr_letter:
  assumes "0 \<le> k" "k \<le> 25"
  shows "\<exists>c. chr (ord CHR ''a'' + k) = Some c \<and> ord c = ord CHR ''a'' + k"
proof -
  have "nat (97 + k) mod 256 = nat (97 + k)" using assms by simp
  then show ?thesis using assms by (simp add: chr_def ord_def of_char_of)
qed

text \<open>
  Claim C6. When the base file exists, the directory is scanned for files of the same
  prefix and the name chosen carries one lowercase letter: the letter after the
  greatest one-letter suffix present, or \<open>a\<close> when there is none. That letter is
  unused. The alphabet caps the scheme: the statement is for directories whose suffixes
  are all below \<open>z\<close>. With \<^verbatim>\<open>sub-999_rumble_recognition.tsv\<close> and
  \<^verbatim>\<open>sub-999_rumble_recognition_a.tsv\<close> present, the name is
  \<^verbatim>\<open>sub-999_rumble_recognition_b.tsv\<close>.
\<close>

theorem csv_file_name_collision:
  "(base_name pid @ ''.tsv'' \<in> set listing
      \<and> (\<forall>i\<in>set (suffix_indices (base_name pid) listing). i < 25) \<longrightarrow>
    (\<exists>c. choose_csv_file_name listing pid = Some (base_name pid @ ''_'' @ [c] @ ''.tsv'')
         \<and> ord CHR ''a'' \<le> ord c \<and> ord c \<le> ord CHR ''z''
         \<and> ord c - ord CHR ''a'' =
             (if suffix_indices (base_name pid) listing = [] then 0
              else Max (set (suffix_indices (base_name pid) listing)) + 1)
         \<and> base_name pid @ ''_'' @ [c] @ ''.tsv'' \<notin> set listing))
   \<and> choose_csv_file_name
        [''sub-999_rumble_recognition.tsv'', ''sub-999_rumble_recognition_a.tsv''] ''999''
      = Some ''sub-999_rumble_recognition_b.tsv''"
proof (intro conjI impI)
  assume a: "base_name pid @ ''.tsv'' \<in> set listing
      \<and> (\<forall>i\<in>set (suffix_indices (base_name pid) listing). i < 25)"
  define base where "base = base_name pid"
  define ixs where "ixs = suffix_indices base listing"
  have "\<forall>i\<in>set ixs. 0 \<le> i \<and> i < 25"
    using a suffix_index_nonneg unfolding ixs_def base_def set_suffix_indices by blast
  from next_index_bounds [OF this]
  have b: "0 \<le> next_index ixs" "next_index ixs \<le> 25" and fresh: "next_index ixs \<notin> set ixs"
    by auto
  from chr_letter [OF b] obtain c where
    c: "chr (ord CHR ''a'' + next_index ixs) = Some c" "ord c = ord CHR ''a'' + next_index ixs"
    by blast
  have name: "choose_csv_file_name listing pid = Some (base @ ''_'' @ [c] @ ''.tsv'')"
    using a c(1) by (simp add: choose_csv_file_name_def base_def ixs_def)
  have rng: "97 \<le> (of_char c :: nat)" "(of_char c :: nat) \<le> 122"
    using c(2) b by (simp_all add: ord_def)
  have "base @ ''_'' @ [c] @ ''.tsv'' \<notin> set listing"
  proof
    assume m: "base @ ''_'' @ [c] @ ''.tsv'' \<in> set listing"
    have "startswith (base @ ''_'' @ [c] @ ''.tsv'') base" by (rule startswith_append)
    with m suffix_index_suffixed [OF rng, of base]
    have "ord c - ord CHR ''a'' \<in> set ixs" unfolding ixs_def set_suffix_indices by blast
    with c(2) fresh show False by simp
  qed
  with name c(2) b next_index_Max [of ixs]
  show "\<exists>c. choose_csv_file_name listing pid = Some (base_name pid @ ''_'' @ [c] @ ''.tsv'')
         \<and> ord CHR ''a'' \<le> ord c \<and> ord c \<le> ord CHR ''z''
         \<and> ord c - ord CHR ''a'' =
             (if suffix_indices (base_name pid) listing = [] then 0
              else Max (set (suffix_indices (base_name pid) listing)) + 1)
         \<and> base_name pid @ ''_'' @ [c] @ ''.tsv'' \<notin> set listing"
    unfolding base_def ixs_def by (intro exI [of _ c]) (simp add: ord_def)
next
  show "choose_csv_file_name
        [''sub-999_rumble_recognition.tsv'', ''sub-999_rumble_recognition_a.tsv''] ''999''
      = Some ''sub-999_rumble_recognition_b.tsv''"
    by code_simp
qed

theorem csv_file_name_collision_witness:
  "\<exists>c. choose_csv_file_name
          [''sub-999_rumble_recognition_c.tsv'', ''notes.txt'',
           ''sub-999_rumble_recognition.tsv'', ''sub-999_rumble_recognition_A.tsv''] ''999''
        = Some (base_name ''999'' @ ''_'' @ [c] @ ''.tsv'')
      \<and> ord c - ord CHR ''a'' = 3"
proof -
  let ?listing = "[''sub-999_rumble_recognition_c.tsv'', ''notes.txt'',
           ''sub-999_rumble_recognition.tsv'', ''sub-999_rumble_recognition_A.tsv'']"
  have ixs: "suffix_indices (base_name ''999'') ?listing = [2, 0]"
    by code_simp
  have "base_name ''999'' @ ''.tsv'' \<in> set ?listing"
    by (simp add: base_name_def)
  with ixs csv_file_name_collision [of "''999''" ?listing] show ?thesis
    by auto
qed

text \<open>
  Claim C9. The scan is made only when the base file exists. When it is absent the
  base name is chosen, whatever suffixed files the directory holds.
\<close>

theorem csv_file_name_base_absent:
  "base_name pid @ ''.tsv'' \<notin> set listing \<Longrightarrow>
   choose_csv_file_name listing pid = Some (base_name pid @ ''.tsv'')"
  by (simp add: choose_csv_file_name_def)

theorem csv_file_name_base_absent_witness:
  "choose_csv_file_name
     [''sub-999_rumble_recognition_a.tsv'', ''sub-999_rumble_recognition_b.tsv''] ''999''
   = Some ''sub-999_rumble_recognition.tsv''"
proof -
  have "base_name ''999'' @ ''.tsv'' \<notin>
          set [''sub-999_rumble_recognition_a.tsv'', ''sub-999_rumble_recognition_b.tsv'']"
    by (simp add: base_name_def)
  from csv_file_name_base_absent [OF this] show ?thesis
    by (simp add: base_name_def)
qed

subsection \<open>The stimulus order\<close>

lemma randbelow_run [simp]:
  "events (randbelow n i) = []"
  "outcome (randbelow n i) = Done (nat (entropy i (drawn i) mod int n))"
  "frames (rest (randbelow n i)) = frames i"
  by (simp_all add: randbelow_def)

lemma randbelow_less: "0 < n \<Longrightarrow> nat (entropy i (drawn i) mod int n) < n"
  by (simp add: nat_less_iff)

lemma mset_swap_list: "i < length x \<Longrightarrow> j < length x \<Longrightarrow> mset (swap i j x) = mset x"
  unfolding swap_def by (simp add: mset_swap)

lemma shuffle_from_run:
  "k < length x \<Longrightarrow>
   \<exists>ys. outcome (shuffle_from k x i) = Done ys \<and> mset ys = mset x
        \<and> events (shuffle_from k x i) = [] \<and> frames (rest (shuffle_from k x i)) = frames i"
proof (induction k arbitrary: x i)
  case 0
  then show ?case by simp
next
  case (Suc k)
  define j where "j = nat (entropy i (drawn i) mod int (Suc k + 1))"
  have j: "j < Suc k + 1" unfolding j_def by (rule randbelow_less) simp
  with Suc.prems have m: "mset (swap (Suc k) j x) = mset x" and l: "k < length (swap (Suc k) j x)"
    by (simp_all add: mset_swap_list) (simp add: swap_def)
  from Suc.IH [OF l, of "rest (randbelow (Suc k + 1) i)"] m
  show ?case
    by (auto simp: events_bind outcome_bind rest_bind j_def)
qed

lemma shuffle_run:
  "\<exists>ys. outcome (shuffle x i) = Done ys \<and> mset ys = mset x
        \<and> events (shuffle x i) = [] \<and> frames (rest (shuffle x i)) = frames i"
proof (cases x)
  case Nil
  then show ?thesis by (simp add: shuffle_def)
next
  case (Cons a as)
  then have "length x - 1 < length x" by simp
  from shuffle_from_run [OF this] show ?thesis by (simp add: shuffle_def)
qed

lemma stim_sets_run:
  "\<exists>blocks. outcome (stim_sets h n acc i) = Done (acc @ concat blocks)
      \<and> length blocks = n \<and> list_all (balanced h) blocks
      \<and> events (stim_sets h n acc i) = [] \<and> frames (rest (stim_sets h n acc i)) = frames i"
proof (induction n arbitrary: acc i)
  case 0
  show ?case by (rule exI [of _ "[]"]) simp
next
  case (Suc n)
  let ?s = "shuffle (replicate h 1 @ replicate h (2::int)) i"
  from shuffle_run [of "replicate h 1 @ replicate h (2::int)" i]
  obtain b where b: "outcome ?s = Done b" "mset b = mset (replicate h 1 @ replicate h 2)"
    "events ?s = []" "frames (rest ?s) = frames i" by blast
  from Suc.IH [of "acc @ b" "rest ?s"]
  obtain blocks where bl: "outcome (stim_sets h n (acc @ b) (rest ?s)) = Done ((acc @ b) @ concat blocks)"
    "length blocks = n" "list_all (balanced h) blocks"
    "events (stim_sets h n (acc @ b) (rest ?s)) = []"
    "frames (rest (stim_sets h n (acc @ b) (rest ?s))) = frames (rest ?s)" by blast
  from b(2) have "balanced h b" by (simp add: balanced_def)
  with b(1,3,4) bl show ?case
    by (intro exI [of _ "b # blocks"]) (simp add: events_bind outcome_bind rest_bind)
qed

lemma balanced_length: "balanced h b \<Longrightarrow> length b = 2 * h"
  unfolding balanced_def by (metis length_append length_replicate mset_eq_length mult_2)

lemma count_list_replicate_eq: "count_list (replicate n a) x = (if x = a then n else 0)"
  by (induction n) auto

lemma balanced_count:
  "balanced h b \<Longrightarrow> count_list b 1 = h \<and> count_list b 2 = h \<and> set b \<subseteq> {1, 2}"
proof -
  assume a: "balanced h b"
  then have "count (mset b) x = count (mset (replicate h 1 @ replicate h 2)) x" for x
    by (simp add: balanced_def)
  then have c: "count_list b x = count_list (replicate h 1 @ replicate h 2) x" for x
    by (simp add: count_mset count_list_replicate_eq)
  have "set b = set (replicate h 1 @ replicate h (2::int))"
    using a unfolding balanced_def by (rule mset_eq_setD)
  then have "set b \<subseteq> {1, 2}" by auto
  with c [of 1] c [of 2] show ?thesis by (simp add: count_list_replicate_eq)
qed

lemma length_concat_balanced:
  "list_all (balanced h) blocks \<Longrightarrow> length (concat blocks) = length blocks * (2 * h)"
  by (induction blocks) (simp_all add: balanced_length)

lemma block_of_concat:
  "list_all (balanced h) blocks \<Longrightarrow> k < length blocks \<Longrightarrow>
   take (2 * h) (drop (k * (2 * h)) (concat blocks)) = blocks ! k"
proof (induction blocks arbitrary: k)
  case Nil
  then show ?case by simp
next
  case (Cons b blocks)
  then have l: "length b = 2 * h" by (simp add: balanced_length)
  show ?case
  proof (cases k)
    case 0
    with l show ?thesis by simp
  next
    case (Suc k')
    with Cons l show ?thesis by simp
  qed
qed

lemma make_stim_order_run:
  "\<exists>blocks. outcome (make_stim_order i) = Done (concat blocks)
      \<and> length blocks = 10 \<and> list_all (balanced 5) blocks
      \<and> events (make_stim_order i) = [] \<and> frames (rest (make_stim_order i)) = frames i"
  using stim_sets_run [of 5 10 "[]" i]
  by (simp add: make_stim_order_def trials_def half_trials_per_set_def)

text \<open>
  Claim C1. The plan the script generates is not a sequence of 30 codes: the loop
  \<^verbatim>\<open>for _ in range(trials // 3)\<close> runs ten times, so whatever the random source, the
  plan has 100 codes, ten shuffled blocks of 10.
\<close>

theorem stim_order_length:
  "\<exists>stim_order. outcome (make_stim_order i) = Done stim_order \<and> length stim_order = 100
     \<and> length stim_order \<noteq> 30"
proof -
  from make_stim_order_run [of i] obtain blocks where
    b: "outcome (make_stim_order i) = Done (concat blocks)" "length blocks = 10"
       "list_all (balanced 5) blocks" by blast
  from length_concat_balanced [OF b(3)] b(2) have "length (concat blocks) = 100" by simp
  with b(1) show ?thesis by simp
qed

text \<open>
  Every block of 10 of the plan, the three used by the 30 trials among them, has five
  ones and five twos, and the plan holds no other code.
\<close>

lemma stim_order_blocks:
  "\<exists>stim_order. outcome (make_stim_order i) = Done stim_order \<and>
     (\<forall>k<10. count_list (take 10 (drop (k * 10) stim_order)) 1 = 5
            \<and> count_list (take 10 (drop (k * 10) stim_order)) 2 = 5)
     \<and> set stim_order \<subseteq> {1, 2}"
proof -
  from make_stim_order_run [of i] obtain blocks where
    b: "outcome (make_stim_order i) = Done (concat blocks)" "length blocks = 10"
       "list_all (balanced 5) blocks" by blast
  have "\<forall>k<10. count_list (take 10 (drop (k * 10) (concat blocks))) 1 = 5
            \<and> count_list (take 10 (drop (k * 10) (concat blocks))) 2 = 5"
  proof (intro allI impI)
    fix k :: nat assume k: "k < 10"
    with b(2) have "take (2 * 5) (drop (k * (2 * 5)) (concat blocks)) = blocks ! k"
      by (intro block_of_concat [OF b(3)]) simp
    moreover from b(2,3) k have "balanced 5 (blocks ! k)" by (simp add: list_all_length)
    ultimately show "count_list (take 10 (drop (k * 10) (concat blocks))) 1 = 5
            \<and> count_list (take 10 (drop (k * 10) (concat blocks))) 2 = 5"
      using balanced_count [of 5 "blocks ! k"] by simp
  qed
  moreover have "set (concat blocks) \<subseteq> {1, 2}"
    using b(3) balanced_count by (fastforce simp: list_all_iff)
  ultimately show ?thesis using b(1) by blast
qed

subsection \<open>The dietary condition\<close>

text \<open>
  Claim C2. The condition is a function of the trial index alone: for every index from
  0 to 29, the indices up to 8 give Fasted, 9 to 18 give Post_Drink_1 and 19 to 29 give
  Post_Drink_2; index 8 gives Fasted, 9 and 18 give Post_Drink_1, 19 gives Post_Drink_2.
\<close>

theorem condition_buckets:
  "(0 \<le> t \<and> t \<le> 29 \<longrightarrow>
      condition t = (if t \<le> 8 then ''Fasted'' else if t \<le> 18 then ''Post_Drink_1''
                     else ''Post_Drink_2''))
   \<and> condition 8 = ''Fasted'' \<and> condition 9 = ''Post_Drink_1''
   \<and> condition 18 = ''Post_Drink_1'' \<and> condition 19 = ''Post_Drink_2''"
  by (simp add: condition_def)

theorem condition_buckets_witness:
  "map condition [0, 8, 9, 18, 19, 29] =
     [''Fasted'', ''Fasted'', ''Post_Drink_1'', ''Post_Drink_1'', ''Post_Drink_2'', ''Post_Drink_2'']"
  using condition_buckets [of 0] condition_buckets [of 29] condition_buckets [of 8]
  by (simp add: condition_def)


subsection \<open>The order of the two sounds\<close>

text \<open>
  Claim C3. With order code 1 the trial presents the live sound first and the
  pre-recorded sound second; with order code 2 the pre-recorded sound first and the live
  sound second. Both hold for every input, whatever the run does after the sounds.
\<close>

theorem order_code_decides_order:
  "presented (events (run_discrimination_trial ext fs duration trial_num 1 dir sound_file_play i))
     = [Live, Prerecorded sound_file_play]
   \<and> presented (events (run_discrimination_trial ext fs duration trial_num 2 dir sound_file_play i))
     = [Prerecorded sound_file_play, Live]"
  by (simp add: run_discrimination_trial_def run_simps Let_def split: outcome.splits sum.splits)

text \<open>
  Claim C10. The trial branches on whether the order code is 1 and on nothing else: with
  any other code, 2 or not, the whole run is the run of code 2, the pre-recorded sound
  first and the live sound second. No code is rejected.
\<close>

theorem other_codes_as_code_2:
  "participant_loc \<noteq> 1 \<Longrightarrow>
   run_discrimination_trial ext fs duration trial_num participant_loc dir sound_file_play i
     = run_discrimination_trial ext fs duration trial_num 2 dir sound_file_play i
   \<and> presented (events (run_discrimination_trial ext fs duration trial_num participant_loc dir
                          sound_file_play i))
     = [Prerecorded sound_file_play, Live]"
  by (simp add: run_discrimination_trial_def run_simps Let_def split: outcome.splits sum.splits)

theorem other_codes_as_code_2_witness:
  "run_discrimination_trial True 48000 15 4 7 [''sounds''] [''sounds'', ''gastric_rec_4.wav'']
     (clicks 2)
   = run_discrimination_trial True 48000 15 4 2 [''sounds''] [''sounds'', ''gastric_rec_4.wav'']
       (clicks 2)
   \<and> presented (events (run_discrimination_trial True 48000 15 4 0 [''sounds'']
                          [''sounds'', ''gastric_rec_4.wav''] (clicks 2)))
     = [Prerecorded [''sounds'', ''gastric_rec_4.wav''], Live]"
proof -
  have seven: "(7::int) \<noteq> 1" and zero: "(0::int) \<noteq> 1"
    by simp_all
  show ?thesis
    by (rule conjI [OF conjunct1 [OF other_codes_as_code_2 [OF seven]]
                       conjunct2 [OF other_codes_as_code_2 [OF zero]]])
qed

subsection \<open>The response code\<close>

lemma first_clicked_bounds:
  "first_clicked k cs = Some r \<Longrightarrow> k \<le> r \<and> r < k + length cs \<and> cs ! (r - k)"
proof (induction cs arbitrary: k)
  case Nil
  then show ?case by simp
next
  case (Cons c cs)
  show ?case
  proof (cases c)
    case True
    with Cons.prems show ?thesis by simp
  next
    case False
    with Cons.prems have "first_clicked (Suc k) cs = Some r" by simp
    from Cons.IH [OF this] show ?thesis by (auto simp: Suc_diff_le)
  qed
qed

lemma selected_button_index_Some:
  "selected_button_index f = Some r \<Longrightarrow> r < 2 \<and> contains (button_positions ! r) (150, 50) f"
proof -
  assume "selected_button_index f = Some r"
  from first_clicked_bounds [OF this [unfolded selected_button_index_def]]
  have "r < length (buttons_clicked f)" "buttons_clicked f ! r" by simp_all
  then have "r < length button_positions" "contains (button_positions ! r) (150, 50) f"
    by (simp_all add: buttons_clicked_def)
  then show ?thesis by (simp add: button_positions_def)
qed

lemma trial_response_Done:
  "fst (trial_response fs) = Done r \<Longrightarrow>
   \<exists>f\<in>set fs. left_button f \<and> selected_button_index f = Some r"
  by (induction fs) (auto split: if_splits option.splits)

lemma training_response_Done:
  "fst (training_response fs) = Done r \<Longrightarrow>
   \<exists>f\<in>set fs. left_button f \<and> selected_button_index f = Some r"
  by (induction fs) (auto split: if_splits option.splits)

lemma response_code_of_values:
  "response_code_of 0 = Inr 1" "response_code_of 1 = Inr 2"
  "response_code_of (Suc (Suc n)) = Inl IndexError"
  by (simp_all add: response_code_of_def index_py_def)

lemma response_code_of_Inr:
  "response_code_of r = Inr c \<Longrightarrow> r < 2 \<and> c = int r + 1"
  by (cases r rule: nat.exhaust [case_names 0 Suc])
     (auto simp: response_code_of_def index_py_def nth_Cons' split: if_splits)

lemma index_buttons_Inr:
  "index_py buttons (int r) = Inr b \<Longrightarrow> r < 2 \<and> b = buttons ! r"
  by (auto simp: index_py_def buttons_def split: if_splits)

lemma trial_outcome_Done:
  assumes "outcome (run_discrimination_trial ext fs duration trial_num participant_loc dir
                      sound_file_play i) = Done (button, code, conf)"
  shows "\<exists>response. fst (trial_response (frames i)) = Done response
           \<and> response_code_of response = Inr code \<and> index_py buttons (int response) = Inr button"
  using assms
  by (auto simp: run_discrimination_trial_def run_simps Let_def
           split: outcome.splits sum.splits if_splits)

lemma training_outcome_Done:
  assumes "outcome (run_training ext duration sound_file_play i) = Done (button, code, conf)"
  shows "\<exists>response. fst (training_response (frames i)) = Done response
           \<and> response_code_of response = Inr code \<and> index_py buttons (int response) = Inr button"
  using assms
  by (auto simp: run_training_def run_simps Let_def
           split: outcome.splits sum.splits if_splits)

lemma trial_outcome_any_code:
  "outcome (run_discrimination_trial ext fs duration trial_num participant_loc dir
              sound_file_play i)
   = outcome (run_discrimination_trial ext fs duration trial_num participant_loc' dir
                sound_file_play i)"
  by (simp add: run_discrimination_trial_def run_simps Let_def
           split: outcome.splits sum.splits)

text \<open>
  Claim C4. The response code is a function of the position selected: position 0 gives
  code 1, position 1 gives code 2. What a trial returns does not depend on the order
  code, and the code and the button label a trial or the training returns are those of
  the button the pointer was in when the left button went down.
\<close>

theorem response_code_from_position:
  "response_code_of 0 = Inr 1 \<and> response_code_of 1 = Inr 2
   \<and> outcome (run_discrimination_trial ext fs duration trial_num participant_loc dir
                 sound_file_play i)
     = outcome (run_discrimination_trial ext fs duration trial_num participant_loc' dir
                  sound_file_play i)
   \<and> (outcome (run_discrimination_trial ext fs duration trial_num participant_loc dir
                  sound_file_play i) = Done (button, code, conf) \<longrightarrow>
        (\<exists>position f. f \<in> set (frames i) \<and> left_button f
            \<and> selected_button_index f = Some position
            \<and> contains (button_positions ! position) (150, 50) f
            \<and> position < 2 \<and> code = int position + 1 \<and> button = buttons ! position))
   \<and> (outcome (run_training ext duration sound_file_play i) = Done (button, code, conf) \<longrightarrow>
        (\<exists>position f. f \<in> set (frames i) \<and> left_button f
            \<and> selected_button_index f = Some position
            \<and> contains (button_positions ! position) (150, 50) f
            \<and> position < 2 \<and> code = int position + 1 \<and> button = buttons ! position))"
proof (intro conjI impI)
  show "response_code_of 0 = Inr 1" "response_code_of 1 = Inr 2"
    by (rule response_code_of_values)+
  show "outcome (run_discrimination_trial ext fs duration trial_num participant_loc dir
                 sound_file_play i)
     = outcome (run_discrimination_trial ext fs duration trial_num participant_loc' dir
                  sound_file_play i)"
    by (rule trial_outcome_any_code)
next
  assume "outcome (run_discrimination_trial ext fs duration trial_num participant_loc dir
                  sound_file_play i) = Done (button, code, conf)"
  from trial_outcome_Done [OF this] obtain r where
    r: "fst (trial_response (frames i)) = Done r" "response_code_of r = Inr code"
       "index_py buttons (int r) = Inr button" by blast
  from trial_response_Done [OF r(1)] obtain f where
    f: "f \<in> set (frames i)" "left_button f" "selected_button_index f = Some r" by blast
  with selected_button_index_Some [OF f(3)] response_code_of_Inr [OF r(2)]
    index_buttons_Inr [OF r(3)]
  show "\<exists>position f. f \<in> set (frames i) \<and> left_button f
            \<and> selected_button_index f = Some position
            \<and> contains (button_positions ! position) (150, 50) f
            \<and> position < 2 \<and> code = int position + 1 \<and> button = buttons ! position"
    by blast
next
  assume "outcome (run_training ext duration sound_file_play i) = Done (button, code, conf)"
  from training_outcome_Done [OF this] obtain r where
    r: "fst (training_response (frames i)) = Done r" "response_code_of r = Inr code"
       "index_py buttons (int r) = Inr button" by blast
  from training_response_Done [OF r(1)] obtain f where
    f: "f \<in> set (frames i)" "left_button f" "selected_button_index f = Some r" by blast
  with selected_button_index_Some [OF f(3)] response_code_of_Inr [OF r(2)]
    index_buttons_Inr [OF r(3)]
  show "\<exists>position f. f \<in> set (frames i) \<and> left_button f
            \<and> selected_button_index f = Some position
            \<and> contains (button_positions ! position) (150, 50) f
            \<and> position < 2 \<and> code = int position + 1 \<and> button = buttons ! position"
    by blast
qed

lemma demo_trial:
  "outcome (run_discrimination_trial False 48000 15 0 2 [''sounds''] [''sounds'', ''gastric_rec_0.wav'']
              (clicks 2)) = Done (''Sound 1'', 1, 20)"
  by (simp add: run_discrimination_trial_def run_simps Let_def clicks_def numeral_2_eq_2
        trial_response_click response_code_of_values get_confidence_mouse_clicks index_buttons_0
        del: trial_response.simps)

lemma demo_training:
  "outcome (run_training False 15 [''sounds'', ''gastric_rec_0.wav''] (clicks 2))
     = Done (''Sound 1'', 1, 20)"
  by (simp add: run_training_def run_simps Let_def clicks_def numeral_2_eq_2
        training_response_click response_code_of_values get_confidence_mouse_clicks index_buttons_0
        del: training_response.simps)

theorem response_code_from_position_witness:
  "outcome (run_discrimination_trial False 48000 15 0 2 [''sounds'']
              [''sounds'', ''gastric_rec_0.wav''] (clicks 2)) = Done (''Sound 1'', 1, 20)
   \<and> outcome (run_training False 15 [''sounds'', ''gastric_rec_0.wav''] (clicks 2))
       = Done (''Sound 1'', 1, 20)
   \<and> (\<exists>position f. f \<in> set (frames (clicks 2)) \<and> left_button f
            \<and> selected_button_index f = Some position
            \<and> (1::int) = int position + 1 \<and> ''Sound 1'' = buttons ! position)"
  using response_code_from_position
          [of False 48000 15 0 2 "[''sounds'']" "[''sounds'', ''gastric_rec_0.wav'']" "clicks 2"
              2 "''Sound 1''" 1 20]
        demo_trial demo_training
  by blast

subsection \<open>The confidence rating\<close>


lemma unit_draw_range:
  "0 \<le> real_of_int (e mod 2 ^ 53) / 2 ^ 53 \<and> real_of_int (e mod 2 ^ 53) / 2 ^ 53 < 1"
proof -
  have "0 \<le> e mod 2 ^ 53" "e mod 2 ^ 53 < 2 ^ 53" by simp_all
  then have "0 \<le> real_of_int (e mod 2 ^ 53)" "real_of_int (e mod 2 ^ 53) < 2 ^ 53"
    by (simp, metis of_int_less_iff of_int_numeral of_int_power)
  then show ?thesis by simp
qed

lemma uniform_20_80:
  "\<exists>p. outcome (uniform 20 80 i) = Done p \<and> 20 \<le> p \<and> p \<le> 80"
proof -
  define u where "u = real_of_int (entropy i (drawn i) mod 2 ^ 53) / 2 ^ 53"
  have "0 \<le> u" "u < 1" using unit_draw_range [of "entropy i (drawn i)"] by (simp_all add: u_def)
  then have "20 \<le> 20 + (80 - 20) * u" "20 + (80 - 20) * u \<le> 80" by simp_all
  then show ?thesis by (simp add: u_def)
qed

lemma track_cases:
  "track m f = m \<or> (track m f = slider_value f \<and> 0 \<le> slider_value f \<and> slider_value f \<le> 100)"
  by (simp add: track_def)

lemma track_range: "0 \<le> m \<Longrightarrow> m \<le> 100 \<Longrightarrow> 0 \<le> track m f \<and> track m f \<le> 100"
  by (simp add: track_def)

lemma foldl_track_range:
  "0 \<le> m \<Longrightarrow> m \<le> 100 \<Longrightarrow> 0 \<le> foldl track m fs \<and> foldl track m fs \<le> 100"
  by (induction fs arbitrary: m) (simp_all add: track_range)

lemma confidence_loop_confirm:
  "(\<forall>g\<in>set pre. \<not> left_button g \<and> ''escape'' \<notin> set (keys g)) \<Longrightarrow>
   left_button f \<Longrightarrow> ''escape'' \<notin> set (keys f) \<Longrightarrow>
   confidence_loop m (pre @ f # post) = (Done (foldl track m pre), post)"
  by (induction pre arbitrary: m) simp_all

lemma confidence_loop_Done:
  "confidence_loop m fs = (Done r, post) \<Longrightarrow>
   \<exists>pre f. fs = pre @ f # post \<and> (\<forall>g\<in>set pre. \<not> left_button g \<and> ''escape'' \<notin> set (keys g))
      \<and> left_button f \<and> ''escape'' \<notin> set (keys f) \<and> r = foldl track m pre"
proof (induction fs arbitrary: m)
  case Nil
  then show ?case by simp
next
  case (Cons g fs)
  show ?case
  proof (cases "left_button g")
    case True
    with Cons.prems have "''escape'' \<notin> set (keys g)" "r = m" "post = fs"
      by (auto split: if_splits)
    with True show ?thesis by (intro exI [of _ "[]"] exI [of _ g]) simp
  next
    case False
    with Cons.prems have e: "''escape'' \<notin> set (keys g)"
      and "confidence_loop (track m g) fs = (Done r, post)"
      by (auto split: if_splits)
    from Cons.IH [OF this(2)] obtain pre f where
      "fs = pre @ f # post" "\<forall>g\<in>set pre. \<not> left_button g \<and> ''escape'' \<notin> set (keys g)"
      "left_button f" "''escape'' \<notin> set (keys f)" "r = foldl track (track m g) pre" by blast
    with False e show ?thesis by (intro exI [of _ "g # pre"] exI [of _ f]) simp
  qed
qed

lemma get_confidence_mouse_outcome:
  "outcome (get_confidence_mouse i) =
     fst (confidence_loop (20 + 60 * (real_of_int (entropy i (drawn i) mod 2 ^ 53) / 2 ^ 53))
            (frames i))"
  by (simp add: get_confidence_mouse_def run_simps)

text \<open>
  Claim C8. The marker of the confidence slider starts at a value between 20 and 80. A
  pass moves it only to a pointer value between 0 and 100. The value returned is the
  marker as the passes before the confirming click left it, and lies between 0 and
  100; a click that arrives before any ESCAPE does return it.
\<close>

theorem confidence_in_range:
  "(\<exists>initial_position. outcome (uniform 20 80 i) = Done initial_position
       \<and> 20 \<le> initial_position \<and> initial_position \<le> 80
       \<and> outcome (get_confidence_mouse i) = fst (confidence_loop initial_position (frames i))
       \<and> (outcome (get_confidence_mouse i) = Done rating \<longrightarrow>
            0 \<le> rating \<and> rating \<le> 100
            \<and> (\<exists>pre f post. frames i = pre @ f # post \<and> left_button f
                  \<and> rating = foldl track initial_position pre))
       \<and> ((\<forall>g\<in>set pre. \<not> left_button g \<and> ''escape'' \<notin> set (keys g))
            \<and> left_button f \<and> ''escape'' \<notin> set (keys f) \<and> frames i = pre @ f # post \<longrightarrow>
            outcome (get_confidence_mouse i) = Done (foldl track initial_position pre)))
   \<and> (track markerPos g = markerPos
        \<or> (track markerPos g = slider_value g \<and> 0 \<le> slider_value g \<and> slider_value g \<le> 100))"
proof (intro conjI)
  define p where "p = 20 + 60 * (real_of_int (entropy i (drawn i) mod 2 ^ 53) / 2 ^ 53)"
  have u: "outcome (uniform 20 80 i) = Done p" by (simp add: p_def)
  with uniform_20_80 [of i] have r: "20 \<le> p" "p \<le> 80" by auto
  have o: "outcome (get_confidence_mouse i) = fst (confidence_loop p (frames i))"
    unfolding p_def by (rule get_confidence_mouse_outcome)
  have d: "0 \<le> rating \<and> rating \<le> 100
            \<and> (\<exists>pre f post. frames i = pre @ f # post \<and> left_button f
                  \<and> rating = foldl track p pre)"
    if "outcome (get_confidence_mouse i) = Done rating"
  proof -
    from that o obtain post where "confidence_loop p (frames i) = (Done rating, post)"
      by (metis prod.collapse)
    from confidence_loop_Done [OF this] obtain pre f where
      pf: "frames i = pre @ f # post" "left_button f" "rating = foldl track p pre" by blast
    from r have "0 \<le> p" "p \<le> 100" by simp_all
    from foldl_track_range [OF this, of pre] pf show ?thesis by blast
  qed
  have c: "outcome (get_confidence_mouse i) = Done (foldl track p pre)"
    if "(\<forall>g\<in>set pre. \<not> left_button g \<and> ''escape'' \<notin> set (keys g))
            \<and> left_button f \<and> ''escape'' \<notin> set (keys f) \<and> frames i = pre @ f # post"
    using that o confidence_loop_confirm [of pre f p post] by simp
  from u r o d c
  show "\<exists>initial_position. outcome (uniform 20 80 i) = Done initial_position
       \<and> 20 \<le> initial_position \<and> initial_position \<le> 80
       \<and> outcome (get_confidence_mouse i) = fst (confidence_loop initial_position (frames i))
       \<and> (outcome (get_confidence_mouse i) = Done rating \<longrightarrow>
            0 \<le> rating \<and> rating \<le> 100
            \<and> (\<exists>pre f post. frames i = pre @ f # post \<and> left_button f
                  \<and> rating = foldl track initial_position pre))
       \<and> ((\<forall>g\<in>set pre. \<not> left_button g \<and> ''escape'' \<notin> set (keys g))
            \<and> left_button f \<and> ''escape'' \<notin> set (keys f) \<and> frames i = pre @ f # post \<longrightarrow>
            outcome (get_confidence_mouse i) = Done (foldl track initial_position pre))"
    by (intro exI [of _ p]) blast
next
  show "track markerPos g = markerPos
        \<or> (track markerPos g = slider_value g \<and> 0 \<le> slider_value g \<and> slider_value g \<le> 100)"
    by (rule track_cases)
qed

theorem confidence_in_range_witness:
  "outcome (get_confidence_mouse slide_then_click) = Done 50
   \<and> foldl track 20 [point_at 0, point_at 600] = 50
   \<and> outcome (uniform 20 80 slide_then_click) = Done 20"
proof -
  have t: "foldl track 20 [point_at 0, point_at 600] = 50"
    by (simp add: track_def slider_value_def point_at_def)
  have u: "outcome (uniform 20 80 slide_then_click) = Done 20"
    by (simp add: slide_then_click_def)
  have h: "(\<forall>g\<in>set [point_at 0, point_at 600]. \<not> left_button g \<and> ''escape'' \<notin> set (keys g))
        \<and> left_button click \<and> ''escape'' \<notin> set (keys click)
        \<and> frames slide_then_click = [point_at 0, point_at 600] @ click # []"
    by (simp add: point_at_def click_def slide_then_click_def)
  from confidence_in_range [of slide_then_click 50 "[point_at 0, point_at 600]" click "[]"] h u t
  show ?thesis by auto
qed

end
